theory Spec2Isabelle
  imports Main
begin

section \<open>The configuration record of the UWA system manager\<close>

text \<open>
  The file \<^verbatim>\<open>src/uwa/sys/uwa_sys_cfg.cc\<close> defines two objects and no function:
  \<^verbatim>\<open>
  const tUWA_SYS_CFG uwa_sys_cfg = {
      UWA_MBOX_EVT_MASK, /* GKI mailbox event */
      UWA_MBOX_ID,       /* GKI mailbox id */
      UWA_TIMER_ID,      /* GKI timer id */
  };

  tUWA_SYS_CFG* p_uwa_sys_cfg = (tUWA_SYS_CFG*)&uwa_sys_cfg;
  \<close>
\<close>

subsection \<open>The record type and the constant\<close>

text \<open>
  Modelled from the spec: the struct type \<^verbatim>\<open>tUWA_SYS_CFG\<close> is declared in
  \<^verbatim>\<open>uwa_sys.h\<close>, which is not among the sources. The spec names its fields
  \<open>mailboxEventMask\<close>, \<open>mailboxId\<close> and \<open>timerId\<close>, and the comments of the initializer
  give the same order (mailbox event, mailbox id, timer id). The integer types of the
  fields are left open as type parameters.
\<close>

record ('m, 'b, 't) tUWA_SYS_CFG =
  mailboxEventMask :: 'm
  mailboxId :: 'b
  timerId :: 't

text \<open>
  The macros \<^verbatim>\<open>UWA_MBOX_EVT_MASK\<close>, \<^verbatim>\<open>UWA_MBOX_ID\<close> and \<^verbatim>\<open>UWA_TIMER_ID\<close> come
  from headers that are not among the sources; they are parameters. The aggregate
  initializer gives its three values to the members in declaration order. (A brace
  initializer does not compile when a constant does not fit its member, so in a program
  that builds the members hold the constants themselves.)
\<close>

definition uwa_sys_cfg :: "'m \<Rightarrow> 'b \<Rightarrow> 't \<Rightarrow> ('m, 'b, 't) tUWA_SYS_CFG" where
  "uwa_sys_cfg UWA_MBOX_EVT_MASK UWA_MBOX_ID UWA_TIMER_ID =
     \<lparr>mailboxEventMask = UWA_MBOX_EVT_MASK, mailboxId = UWA_MBOX_ID, timerId = UWA_TIMER_ID\<rparr>"

subsection \<open>Objects, pointers and the two globals\<close>

text \<open>
  Addresses of \<^verbatim>\<open>tUWA_SYS_CFG\<close> objects: the one of the object \<^verbatim>\<open>uwa_sys_cfg\<close>, and
  those of objects that code outside this file defines (a test double, for instance).
\<close>

datatype addr = uwa_sys_cfg_addr | other_addr nat

text \<open>An object in memory: what it holds, and whether it was defined \<^verbatim>\<open>const\<close>.\<close>

record ('m, 'b, 't) cfg_object =
  contents :: "('m, 'b, 't) tUWA_SYS_CFG"
  is_const :: bool

text \<open>
  A pointer value with the qualifier of its static type: \<^verbatim>\<open>const tUWA_SYS_CFG*\<close> or
  \<^verbatim>\<open>tUWA_SYS_CFG*\<close>. The target \<open>None\<close> is the null pointer.
\<close>

datatype qualifier = Const | NonConst

record pointer =
  pointee_qual :: qualifier
  target :: "addr option"

text \<open>The state of the process as far as this file is concerned.\<close>

record ('m, 'b, 't) globals =
  objects :: "addr \<rightharpoonup> ('m, 'b, 't) cfg_object"
  p_uwa_sys_cfg :: pointer
  defined_elsewhere :: nat

text \<open>\<^verbatim>\<open>&uwa_sys_cfg\<close> has type \<^verbatim>\<open>const tUWA_SYS_CFG*\<close>.\<close>

definition address_of_uwa_sys_cfg :: pointer where
  "address_of_uwa_sys_cfg = \<lparr>pointee_qual = Const, target = Some uwa_sys_cfg_addr\<rparr>"

text \<open>The cast \<^verbatim>\<open>(tUWA_SYS_CFG*)\<close>: the same address, typed as pointing to a mutable object.\<close>

definition cast_tUWA_SYS_CFG_ptr :: "pointer \<Rightarrow> pointer" where
  "cast_tUWA_SYS_CFG_ptr p = p\<lparr>pointee_qual := NonConst\<rparr>"

text \<open>Static initialization: the two definitions of the file, in their order.\<close>

definition static_init :: "'m \<Rightarrow> 'b \<Rightarrow> 't \<Rightarrow> ('m, 'b, 't) globals" where
  "static_init UWA_MBOX_EVT_MASK UWA_MBOX_ID UWA_TIMER_ID =
     \<lparr>objects = [uwa_sys_cfg_addr \<mapsto>
          \<lparr>contents = uwa_sys_cfg UWA_MBOX_EVT_MASK UWA_MBOX_ID UWA_TIMER_ID, is_const = True\<rparr>],
      p_uwa_sys_cfg = cast_tUWA_SYS_CFG_ptr address_of_uwa_sys_cfg,
      defined_elsewhere = 0\<rparr>"

subsection \<open>What other code can do with the two globals\<close>

text \<open>
  The file has no function. Code of other translation units reaches the two objects by
  name, as far as their C++ types allow: it reads \<^verbatim>\<open>uwa_sys_cfg\<close> (which is
  \<^verbatim>\<open>const\<close>, so no assignment to it compiles), reads or writes through
  \<^verbatim>\<open>p_uwa_sys_cfg\<close>, assigns another \<^verbatim>\<open>tUWA_SYS_CFG*\<close> to \<^verbatim>\<open>p_uwa_sys_cfg\<close>, and
  defines mutable \<^verbatim>\<open>tUWA_SYS_CFG\<close> objects of its own. Undefined behaviour of C++ is a
  fault of the model.
\<close>

datatype ('m, 'b, 't) access =
    ReadCfg
  | LoadViaPtr
  | StoreViaPtr "('m, 'b, 't) tUWA_SYS_CFG"
  | AssignPtr "addr option"
  | DefineObject "('m, 'b, 't) tUWA_SYS_CFG"

datatype fault = NullDereference | InvalidPointer | WriteToConst

text \<open>Reading \<^verbatim>\<open>uwa_sys_cfg\<close> by name.\<close>

definition read_uwa_sys_cfg :: "('m, 'b, 't) globals \<Rightarrow> ('m, 'b, 't) tUWA_SYS_CFG option" where
  "read_uwa_sys_cfg s = map_option contents (objects s uwa_sys_cfg_addr)"

text \<open>Reading \<^verbatim>\<open>*p_uwa_sys_cfg\<close>.\<close>

definition load_via_ptr :: "('m, 'b, 't) globals \<Rightarrow> fault + ('m, 'b, 't) tUWA_SYS_CFG" where
  "load_via_ptr s =
     (case target (p_uwa_sys_cfg s) of
        None \<Rightarrow> Inl NullDereference
      | Some a \<Rightarrow>
          (case objects s a of
             None \<Rightarrow> Inl InvalidPointer
           | Some obj \<Rightarrow> Inr (contents obj)))"

text \<open>Writing \<^verbatim>\<open>*p_uwa_sys_cfg = v\<close>: modifying an object defined \<^verbatim>\<open>const\<close> is undefined.\<close>

definition store_via_ptr ::
  "('m, 'b, 't) tUWA_SYS_CFG \<Rightarrow> ('m, 'b, 't) globals \<Rightarrow> fault + ('m, 'b, 't) globals" where
  "store_via_ptr v s =
     (case target (p_uwa_sys_cfg s) of
        None \<Rightarrow> Inl NullDereference
      | Some a \<Rightarrow>
          (case objects s a of
             None \<Rightarrow> Inl InvalidPointer
           | Some obj \<Rightarrow>
               if is_const obj then Inl WriteToConst
               else Inr (s\<lparr>objects := (objects s)(a \<mapsto> obj\<lparr>contents := v\<rparr>)\<rparr>)))"

text \<open>Assigning \<^verbatim>\<open>p_uwa_sys_cfg = q\<close>, where \<open>q\<close> has the type \<^verbatim>\<open>tUWA_SYS_CFG*\<close>.\<close>

definition assign_ptr :: "addr option \<Rightarrow> ('m, 'b, 't) globals \<Rightarrow> ('m, 'b, 't) globals" where
  "assign_ptr q s = s\<lparr>p_uwa_sys_cfg := \<lparr>pointee_qual = NonConst, target = q\<rparr>\<rparr>"

text \<open>Another translation unit defines a mutable object; it gets an address of its own.\<close>

definition define_object ::
  "('m, 'b, 't) tUWA_SYS_CFG \<Rightarrow> ('m, 'b, 't) globals \<Rightarrow> ('m, 'b, 't) globals" where
  "define_object v s =
     s\<lparr>objects := (objects s)(other_addr (defined_elsewhere s) \<mapsto> \<lparr>contents = v, is_const = False\<rparr>),
       defined_elsewhere := Suc (defined_elsewhere s)\<rparr>"

fun step :: "('m, 'b, 't) globals \<Rightarrow> ('m, 'b, 't) access \<Rightarrow> fault + ('m, 'b, 't) globals" where
  "step s ReadCfg = Inr s"
| "step s LoadViaPtr = (case load_via_ptr s of Inl f \<Rightarrow> Inl f | Inr _ \<Rightarrow> Inr s)"
| "step s (StoreViaPtr v) = store_via_ptr v s"
| "step s (AssignPtr q) = Inr (assign_ptr q s)"
| "step s (DefineObject v) = Inr (define_object v s)"

fun exec :: "('m, 'b, 't) globals \<Rightarrow> ('m, 'b, 't) access list \<Rightarrow> fault + ('m, 'b, 't) globals" where
  "exec s [] = Inr s"
| "exec s (a # as) = (case step s a of Inl f \<Rightarrow> Inl f | Inr s' \<Rightarrow> exec s' as)"

fun is_assignment :: "('m, 'b, 't) access \<Rightarrow> bool" where
  "is_assignment (AssignPtr q) = True"
| "is_assignment _ = False"

section \<open>The dispatch core that the record configures\<close>

text \<open>
  The system manager's Event Source Adapter, Handler Registry and Dispatch Loop are not
  among the sources; only the record that configures them is. Each definition of this
  section is therefore written from the words of the specification (sections 3 to 7),
  and says so.
\<close>

type_synonym task = nat

datatype dispatch_error = BindingError | DuplicateHandlerError | DoubleCloseError

subsection \<open>Event Source Adapter\<close>

text \<open>
  Modelled from the spec: the kernel's mailbox and timer facilities are external; what
  \<open>open\<close> needs of them is which task owns a mailbox id or a timer id.
\<close>

record ('b, 't) kernel =
  mailbox_owner :: "'b \<rightharpoonup> task"
  timer_owner :: "'t \<rightharpoonup> task"

text \<open>
  Modelled from the spec: the adapter's attributes are the owning task handle, the mailbox
  id and event mask it polls, and the timer id with its current expiry if armed.
\<close>

record ('m, 'b, 't) event_source_adapter =
  owning_task :: task
  polled_mailbox :: 'b
  polled_mask :: 'm
  timer_slot :: 't
  expiry :: "nat option"
  is_open :: bool

text \<open>Modelled from the spec: an id is unavailable when another task already owns it.\<close>

definition owned_by_other :: "('i \<rightharpoonup> task) \<Rightarrow> 'i \<Rightarrow> task \<Rightarrow> bool" where
  "owned_by_other owner i t = (case owner i of None \<Rightarrow> False | Some t' \<Rightarrow> t' \<noteq> t)"

text \<open>
  Modelled from the spec: \<open>open(config)\<close> binds the calling task to \<open>mailboxId\<close> with
  wake-ups for \<open>mailboxEventMask\<close> and arms the timer slot \<open>timerId\<close> in a disabled
  state; it fails with \<open>BindingError\<close> if the mailbox or timer id is already owned by
  another task.
\<close>

definition open_adapter ::
  "task \<Rightarrow> ('m, 'b, 't) tUWA_SYS_CFG \<Rightarrow> ('b, 't) kernel
     \<Rightarrow> dispatch_error + (('b, 't) kernel \<times> ('m, 'b, 't) event_source_adapter)" where
  "open_adapter t cfg k =
     (if owned_by_other (mailbox_owner k) (mailboxId cfg) t
         \<or> owned_by_other (timer_owner k) (timerId cfg) t
      then Inl BindingError
      else Inr (k\<lparr>mailbox_owner := (mailbox_owner k)(mailboxId cfg \<mapsto> t),
                  timer_owner := (timer_owner k)(timerId cfg \<mapsto> t)\<rparr>,
                \<lparr>owning_task = t, polled_mailbox = mailboxId cfg,
                 polled_mask = mailboxEventMask cfg, timer_slot = timerId cfg,
                 expiry = None, is_open = True\<rparr>))"

text \<open>
  Modelled from the spec: \<open>close()\<close> releases the mailbox and timer bindings; it fails
  with \<open>DoubleCloseError\<close> if called twice.
\<close>

definition close_adapter ::
  "('b, 't) kernel \<Rightarrow> ('m, 'b, 't) event_source_adapter
     \<Rightarrow> dispatch_error + (('b, 't) kernel \<times> ('m, 'b, 't) event_source_adapter)" where
  "close_adapter k ad =
     (if \<not> is_open ad then Inl DoubleCloseError
      else Inr (k\<lparr>mailbox_owner := (mailbox_owner k)(polled_mailbox ad := None),
                  timer_owner := (timer_owner k)(timer_slot ad := None)\<rparr>,
                ad\<lparr>is_open := False\<rparr>))"

text \<open>Modelled from the spec: \<open>armTimer(duration)\<close> and \<open>disarmTimer()\<close>, both idempotent.\<close>

definition armTimer ::
  "nat \<Rightarrow> ('m, 'b, 't) event_source_adapter \<Rightarrow> ('m, 'b, 't) event_source_adapter" where
  "armTimer duration ad = ad\<lparr>expiry := Some duration\<rparr>"

definition disarmTimer ::
  "('m, 'b, 't) event_source_adapter \<Rightarrow> ('m, 'b, 't) event_source_adapter" where
  "disarmTimer ad = ad\<lparr>expiry := None\<rparr>"

text \<open>
  Modelled from the spec: \<open>waitNext\<close> returns a tagged event, a mailbox message (with the
  discriminator of the message and the rest of its payload), a timer expiry or the
  shutdown signal.
\<close>

datatype ('k, 'd) event = Mailbox 'k 'd | TimerExpired | Shutdown

subsection \<open>Handler Registry\<close>

text \<open>
  Modelled from the spec: an event kind is a mailbox message type or the timer expiry;
  the registry maps a kind to at most one handler.
\<close>

datatype 'k event_kind = MailboxMessage 'k | TimerExpiry

type_synonym ('k, 'h) registry = "'k event_kind \<rightharpoonup> 'h"

datatype 'h lookup_result = Handler 'h | NoHandler

datatype duplicate_policy = Replace | Reject

text \<open>
  Modelled from the spec: \<open>register(eventKind, handler)\<close> inserts a handler; if the kind
  already has one, \<open>Replace\<close> overwrites it and \<open>Reject\<close> fails with
  \<open>DuplicateHandlerError\<close>. (The log line of \<open>Replace\<close> is not modelled.)
\<close>

definition register ::
  "duplicate_policy \<Rightarrow> 'k event_kind \<Rightarrow> 'h \<Rightarrow> ('k, 'h) registry
     \<Rightarrow> dispatch_error + ('k, 'h) registry" where
  "register policy K h reg =
     (case reg K of
        None \<Rightarrow> Inr (reg(K \<mapsto> h))
      | Some old \<Rightarrow>
          (case policy of
             Replace \<Rightarrow> Inr (reg(K \<mapsto> h))
           | Reject \<Rightarrow> Inl DuplicateHandlerError))"

text \<open>
  Modelled from the spec: \<open>lookup(eventKind)\<close> returns the handler for a kind, or the
  \<open>NoHandler\<close> sentinel, which is a result and not an error.
\<close>

definition lookup :: "'k event_kind \<Rightarrow> ('k, 'h) registry \<Rightarrow> 'h lookup_result" where
  "lookup K reg = (case reg K of None \<Rightarrow> NoHandler | Some h \<Rightarrow> Handler h)"

text \<open>Modelled from the spec: \<open>unregister(eventKind)\<close> removes a handler; no-op if absent.\<close>

definition unregister :: "'k event_kind \<Rightarrow> ('k, 'h) registry \<Rightarrow> ('k, 'h) registry" where
  "unregister K reg = reg(K := None)"

subsection \<open>Dispatch Loop\<close>

text \<open>Modelled from the spec: the states \<open>Stopped \<rightarrow> Starting \<rightarrow> Running \<rightarrow> Draining \<rightarrow> Stopped\<close>.\<close>

datatype loop_state = Stopped | Starting | Running | Draining

text \<open>
  Modelled from the spec: what the loop did with an event, a handler invoked
  synchronously or the event dropped on \<open>NoHandler\<close> (the observability signal).
  Handlers are kept abstract; the loop's log of outcomes, oldest first, is what makes
  the order of invocations observable.
\<close>

datatype ('k, 'd, 'h) outcome = Invoked 'h "('k, 'd) event" | Dropped "('k, 'd) event"

text \<open>
  Modelled from the spec: the loop owns its adapter (none while \<open>Stopped\<close>, where no
  resources are held), reads the configuration record and consults the registry; it may
  be configured for periodic operation of the timer.
\<close>

record ('m, 'b, 't, 'k, 'd, 'h) dispatch_loop =
  state :: loop_state
  task_id :: task
  config :: "('m, 'b, 't) tUWA_SYS_CFG"
  handlers :: "('k, 'h) registry"
  adapter :: "('m, 'b, 't) event_source_adapter option"
  periodic :: "nat option"
  outcomes :: "('k, 'd, 'h) outcome list"

text \<open>
  Modelled from the spec: \<open>start()\<close> goes from \<open>Stopped\<close> to \<open>Starting\<close> and opens the
  adapter with the configuration record; on success the loop is \<open>Running\<close>, on
  \<open>BindingError\<close> it remains \<open>Stopped\<close> and the error is reported to the caller. The
  spec defines \<open>start()\<close> in state \<open>Stopped\<close> only; elsewhere the result is \<open>None\<close>.
\<close>

definition start ::
  "('b, 't) kernel \<Rightarrow> ('m, 'b, 't, 'k, 'd, 'h) dispatch_loop
     \<Rightarrow> (dispatch_error option \<times> ('b, 't) kernel \<times> ('m, 'b, 't, 'k, 'd, 'h) dispatch_loop) option" where
  "start k l =
     (case state l of
        Stopped \<Rightarrow>
          (let l1 = l\<lparr>state := Starting\<rparr> in
           case open_adapter (task_id l1) (config l1) k of
             Inr (k', ad) \<Rightarrow> Some (None, k', l1\<lparr>state := Running, adapter := Some ad\<rparr>)
           | Inl e \<Rightarrow> Some (Some e, k, l1\<lparr>state := Stopped\<rparr>))
      | _ \<Rightarrow> None)"

text \<open>
  Modelled from the spec: the loop looks a handler up by the kind of the event and
  invokes it; on \<open>NoHandler\<close> it drops the event.
\<close>

definition route ::
  "'k event_kind \<Rightarrow> ('k, 'd) event \<Rightarrow> ('m, 'b, 't, 'k, 'd, 'h) dispatch_loop
     \<Rightarrow> ('m, 'b, 't, 'k, 'd, 'h) dispatch_loop" where
  "route K e l =
     (case lookup K (handlers l) of
        Handler h \<Rightarrow> l\<lparr>outcomes := outcomes l @ [Invoked h e]\<rparr>
      | NoHandler \<Rightarrow> l\<lparr>outcomes := outcomes l @ [Dropped e]\<rparr>)"

text \<open>Modelled from the spec: after a timer expiry the loop rearms if configured periodic.\<close>

definition rearm ::
  "('m, 'b, 't, 'k, 'd, 'h) dispatch_loop \<Rightarrow> ('m, 'b, 't, 'k, 'd, 'h) dispatch_loop" where
  "rearm l =
     (case periodic l of
        None \<Rightarrow> l
      | Some duration \<Rightarrow> l\<lparr>adapter := map_option (armTimer duration) (adapter l)\<rparr>)"

text \<open>
  Modelled from the spec: \<open>Draining\<close> closes the adapter and goes to \<open>Stopped\<close>. (No
  handler is in flight between two events of a single-threaded loop.)
\<close>

definition drain ::
  "('b, 't) kernel \<Rightarrow> ('m, 'b, 't, 'k, 'd, 'h) dispatch_loop
     \<Rightarrow> dispatch_error + (('b, 't) kernel \<times> ('m, 'b, 't, 'k, 'd, 'h) dispatch_loop)" where
  "drain k l =
     (case adapter l of
        None \<Rightarrow> Inl DoubleCloseError
      | Some ad \<Rightarrow>
          (case close_adapter k ad of
             Inl e \<Rightarrow> Inl e
           | Inr (k', ad') \<Rightarrow> Inr (k', l\<lparr>state := Stopped, adapter := None\<rparr>)))"

text \<open>
  Modelled from the spec: one turn of \<open>Running\<close> on the event that \<open>waitNext\<close> returned.
\<close>

fun dispatch_event ::
  "('k, 'd) event \<Rightarrow> ('b, 't) kernel \<Rightarrow> ('m, 'b, 't, 'k, 'd, 'h) dispatch_loop
     \<Rightarrow> dispatch_error + (('b, 't) kernel \<times> ('m, 'b, 't, 'k, 'd, 'h) dispatch_loop)" where
  "dispatch_event (Mailbox d p) k l = Inr (k, route (MailboxMessage d) (Mailbox d p) l)"
| "dispatch_event TimerExpired k l = Inr (k, rearm (route TimerExpiry TimerExpired l))"
| "dispatch_event Shutdown k l = drain k (l\<lparr>state := Draining\<rparr>)"

text \<open>
  Modelled from the spec: while \<open>Running\<close> the loop takes the events in the order in
  which \<open>waitNext\<close> returns them, one at a time; with no event left it waits, and once it
  has left \<open>Running\<close> it takes no further event.
\<close>

fun run ::
  "('k, 'd) event list \<Rightarrow> ('b, 't) kernel \<Rightarrow> ('m, 'b, 't, 'k, 'd, 'h) dispatch_loop
     \<Rightarrow> dispatch_error + (('b, 't) kernel \<times> ('m, 'b, 't, 'k, 'd, 'h) dispatch_loop)" where
  "run [] k l = Inr (k, l)"
| "run (e # es) k l =
     (if state l = Running
      then (case dispatch_event e k l of
              Inl err \<Rightarrow> Inl err
            | Inr (k', l') \<Rightarrow> run es k' l')
      else Inr (k, l))"

text \<open>
  Modelled from the spec: \<open>requestShutdown()\<close> delivers a \<open>Shutdown\<close> event through the
  same channel as ordinary messages, behind the events already queued.
\<close>

definition requestShutdown :: "('k, 'd) event list \<Rightarrow> ('k, 'd) event list" where
  "requestShutdown queue = queue @ [Shutdown]"

text \<open>The kind under which an event is looked up; the shutdown signal has none.\<close>

fun kind_of :: "('k, 'd) event \<Rightarrow> 'k event_kind option" where
  "kind_of (Mailbox d p) = Some (MailboxMessage d)"
| "kind_of TimerExpired = Some TimerExpiry"
| "kind_of Shutdown = None"

text \<open>
  The outcome that the spec's words ask for an event: its registered handler invoked,
  or the event dropped when the registry has none.
\<close>

definition expected_outcome :: "('k, 'h) registry \<Rightarrow> ('k, 'd) event \<Rightarrow> ('k, 'd, 'h) outcome" where
  "expected_outcome reg e =
     (case kind_of e of
        None \<Rightarrow> Dropped e
      | Some K \<Rightarrow> (case reg K of None \<Rightarrow> Dropped e | Some h \<Rightarrow> Invoked h e))"

fun event_of :: "('k, 'd, 'h) outcome \<Rightarrow> ('k, 'd) event" where
  "event_of (Invoked h e) = e"
| "event_of (Dropped e) = e"

section \<open>Properties of the configuration record and its pointer\<close>

subsection \<open>What every access preserves\<close>

text \<open>
  No access changes the object \<^verbatim>\<open>uwa_sys_cfg\<close>: a store through the pointer faults on a
  \<^verbatim>\<open>const\<close> object, and an object defined elsewhere has another address.
\<close>

lemma step_keeps_uwa_sys_cfg:
  assumes "objects s uwa_sys_cfg_addr = Some obj" and "is_const obj" and "step s a = Inr s'"
  shows "objects s' uwa_sys_cfg_addr = Some obj"
proof (cases a)
  case (StoreViaPtr v)
  with assms show ?thesis
    by (auto simp: store_via_ptr_def split: option.splits if_splits)
next
  case LoadViaPtr
  with assms show ?thesis by (auto split: sum.splits)
qed (use assms in \<open>auto simp: assign_ptr_def define_object_def\<close>)

lemma exec_keeps_uwa_sys_cfg:
  "objects s uwa_sys_cfg_addr = Some obj \<Longrightarrow> is_const obj \<Longrightarrow> exec s as = Inr s'
     \<Longrightarrow> objects s' uwa_sys_cfg_addr = Some obj"
proof (induction as arbitrary: s)
  case Nil
  then show ?case by simp
next
  case (Cons a as)
  from Cons.prems(3) obtain s1 where s1: "step s a = Inr s1" and rest: "exec s1 as = Inr s'"
    by (auto split: sum.splits)
  from step_keeps_uwa_sys_cfg [OF Cons.prems(1,2) s1] have "objects s1 uwa_sys_cfg_addr = Some obj" .
  from Cons.IH [OF this Cons.prems(2) rest] show ?case .
qed

text \<open>
  Only an assignment changes \<^verbatim>\<open>p_uwa_sys_cfg\<close>.
\<close>

lemma step_keeps_pointer:
  "\<not> is_assignment a \<Longrightarrow> step s a = Inr s' \<Longrightarrow> p_uwa_sys_cfg s' = p_uwa_sys_cfg s"
  by (cases a) (auto simp: store_via_ptr_def define_object_def split: sum.splits option.splits if_splits)

lemma exec_keeps_pointer:
  "list_all (\<lambda>a. \<not> is_assignment a) as \<Longrightarrow> exec s as = Inr s' \<Longrightarrow> p_uwa_sys_cfg s' = p_uwa_sys_cfg s"
proof (induction as arbitrary: s)
  case Nil
  then show ?case by simp
next
  case (Cons a as)
  from Cons.prems(2) obtain s1 where s1: "step s a = Inr s1" and rest: "exec s1 as = Inr s'"
    by (auto split: sum.splits)
  from Cons.prems(1) have na: "\<not> is_assignment a" and nas: "list_all (\<lambda>a. \<not> is_assignment a) as"
    by simp_all
  from Cons.IH [OF nas rest] step_keeps_pointer [OF na s1] show ?case by simp
qed

lemma exec_loads:
  "load_via_ptr s = Inr c \<Longrightarrow> exec s (replicate n LoadViaPtr) = Inr s"
  by (induction n) auto

subsection \<open>The record\<close>

text \<open>
  Claim C1. The record \<^verbatim>\<open>uwa_sys_cfg\<close> is a triple of exactly three fields, in the order
  mailbox event mask, mailbox id, timer id, and their values are the build-time constants
  \<^verbatim>\<open>UWA_MBOX_EVT_MASK\<close>, \<^verbatim>\<open>UWA_MBOX_ID\<close> and \<^verbatim>\<open>UWA_TIMER_ID\<close>. Every value of the
  record type is determined by these three fields, and reading \<^verbatim>\<open>uwa_sys_cfg\<close> after static
  initialization gives the three constants.
\<close>

theorem uwa_sys_cfg_triple:
  "mailboxEventMask (uwa_sys_cfg M B T) = M \<and>
   mailboxId (uwa_sys_cfg M B T) = B \<and>
   timerId (uwa_sys_cfg M B T) = T \<and>
   (\<forall>r :: ('m, 'b, 't) tUWA_SYS_CFG.
      r = \<lparr>mailboxEventMask = mailboxEventMask r, mailboxId = mailboxId r, timerId = timerId r\<rparr>) \<and>
   read_uwa_sys_cfg (static_init M B T) =
     Some \<lparr>mailboxEventMask = M, mailboxId = B, timerId = T\<rparr>"
  by (simp add: uwa_sys_cfg_def read_uwa_sys_cfg_def static_init_def)

text \<open>
  Claim C2. The record is immutable for the lifetime of the process: it is constructed at
  static initialization, and after every sequence of accesses that the program can make
  (reads, loads and stores through the pointer, assignments of the pointer, definitions of
  other objects) without undefined behaviour, the object \<^verbatim>\<open>uwa_sys_cfg\<close> still holds its
  build-time value and is still \<^verbatim>\<open>const\<close>.
\<close>

theorem uwa_sys_cfg_immutable:
  assumes "exec (static_init M B T) as = Inr s"
  shows "objects s uwa_sys_cfg_addr = Some \<lparr>contents = uwa_sys_cfg M B T, is_const = True\<rparr> \<and>
         read_uwa_sys_cfg s = Some (uwa_sys_cfg M B T)"
proof -
  have "objects (static_init M B T) uwa_sys_cfg_addr =
          Some \<lparr>contents = uwa_sys_cfg M B T, is_const = True\<rparr>"
    by (simp add: static_init_def)
  from exec_keeps_uwa_sys_cfg [OF this _ assms]
  show ?thesis by (simp add: read_uwa_sys_cfg_def)
qed

theorem uwa_sys_cfg_immutable_witness:
  "\<exists>s. exec (static_init (1::nat) (7::nat) (3::nat))
          [DefineObject (uwa_sys_cfg 2 8 4), AssignPtr (Some (other_addr 0)),
           StoreViaPtr (uwa_sys_cfg 5 5 5), LoadViaPtr, ReadCfg] = Inr s \<and>
       load_via_ptr s = Inr (uwa_sys_cfg 5 5 5) \<and>
       read_uwa_sys_cfg s = Some (uwa_sys_cfg 1 7 3)"
proof -
  let ?as = "[DefineObject (uwa_sys_cfg (2::nat) (8::nat) (4::nat)), AssignPtr (Some (other_addr 0)),
           StoreViaPtr (uwa_sys_cfg 5 5 5), LoadViaPtr, ReadCfg]"
  let ?s = "\<lparr>objects = [uwa_sys_cfg_addr \<mapsto> \<lparr>contents = uwa_sys_cfg (1::nat) (7::nat) (3::nat), is_const = True\<rparr>,
                          other_addr 0 \<mapsto> \<lparr>contents = uwa_sys_cfg 5 5 5, is_const = False\<rparr>],
             p_uwa_sys_cfg = \<lparr>pointee_qual = NonConst, target = Some (other_addr 0)\<rparr>,
             defined_elsewhere = 1\<rparr>"
  have run: "exec (static_init 1 7 3) ?as = Inr ?s"
    by (simp add: static_init_def define_object_def assign_ptr_def store_via_ptr_def
        load_via_ptr_def fun_upd_twist)
  have "load_via_ptr ?s = Inr (uwa_sys_cfg 5 5 5)"
    by (simp add: load_via_ptr_def)
  with run uwa_sys_cfg_immutable [OF run] show ?thesis by simp
qed

subsection \<open>The pointer\<close>

text \<open>
  Claim C3. After static initialization exactly one configuration record exists, the
  object \<^verbatim>\<open>uwa_sys_cfg\<close>, and the mutable global \<^verbatim>\<open>p_uwa_sys_cfg\<close> holds its address.
  Assigning the pointer, in any state and to any value, succeeds, makes the pointer hold
  that value and changes no object: the constant record stays as it was.
\<close>

theorem p_uwa_sys_cfg_points_to_singleton:
  "dom (objects (static_init M B T)) = {uwa_sys_cfg_addr} \<and>
   target (p_uwa_sys_cfg (static_init M B T)) = target address_of_uwa_sys_cfg \<and>
   target address_of_uwa_sys_cfg = Some uwa_sys_cfg_addr \<and>
   step s (AssignPtr q) = Inr (assign_ptr q s) \<and>
   target (p_uwa_sys_cfg (assign_ptr q s)) = q \<and>
   objects (assign_ptr q s) = objects s \<and>
   read_uwa_sys_cfg (assign_ptr q s) = read_uwa_sys_cfg s"
  by (simp add: static_init_def cast_tUWA_SYS_CFG_ptr_def address_of_uwa_sys_cfg_def
      assign_ptr_def read_uwa_sys_cfg_def)

text \<open>
  Claim C9. After static initialization the pointer is not null and a read through it
  gives the triple of the three constants; any number of reads succeeds. The same holds
  in every state reached by accesses none of which assigns the pointer: the pointer still
  holds the address of \<^verbatim>\<open>uwa_sys_cfg\<close> and a read through it gives the triple.
\<close>

theorem p_uwa_sys_cfg_dereference:
  assumes "list_all (\<lambda>a. \<not> is_assignment a) as"
    and "exec (static_init M B T) as = Inr s"
  shows "target (p_uwa_sys_cfg (static_init M B T)) \<noteq> None \<and>
         load_via_ptr (static_init M B T) = Inr (uwa_sys_cfg M B T) \<and>
         exec (static_init M B T) (replicate n LoadViaPtr) = Inr (static_init M B T) \<and>
         target (p_uwa_sys_cfg s) = Some uwa_sys_cfg_addr \<and>
         load_via_ptr s = Inr (uwa_sys_cfg M B T) \<and>
         load_via_ptr s =
           Inr \<lparr>mailboxEventMask = M, mailboxId = B, timerId = T\<rparr>"
proof -
  have init_ptr: "target (p_uwa_sys_cfg (static_init M B T)) = Some uwa_sys_cfg_addr"
    by (simp add: static_init_def cast_tUWA_SYS_CFG_ptr_def address_of_uwa_sys_cfg_def)
  have init_obj: "objects (static_init M B T) uwa_sys_cfg_addr =
                    Some \<lparr>contents = uwa_sys_cfg M B T, is_const = True\<rparr>"
    by (simp add: static_init_def)
  have init_load: "load_via_ptr (static_init M B T) = Inr (uwa_sys_cfg M B T)"
    using init_ptr init_obj by (simp add: load_via_ptr_def)
  have ptr: "target (p_uwa_sys_cfg s) = Some uwa_sys_cfg_addr"
    using exec_keeps_pointer [OF assms] init_ptr by simp
  have obj: "objects s uwa_sys_cfg_addr = Some \<lparr>contents = uwa_sys_cfg M B T, is_const = True\<rparr>"
    using exec_keeps_uwa_sys_cfg [OF init_obj _ assms(2)] by simp
  have load: "load_via_ptr s = Inr (uwa_sys_cfg M B T)"
    using ptr obj by (simp add: load_via_ptr_def)
  show ?thesis
    using init_ptr init_load exec_loads [OF init_load] ptr load
    by (simp add: uwa_sys_cfg_def)
qed

theorem p_uwa_sys_cfg_dereference_witness:
  "list_all (\<lambda>a. \<not> is_assignment a)
     [LoadViaPtr, DefineObject (uwa_sys_cfg (2::nat) (8::nat) (4::nat)), ReadCfg, LoadViaPtr] \<and>
   (\<exists>s. exec (static_init (1::nat) (7::nat) (3::nat))
           [LoadViaPtr, DefineObject (uwa_sys_cfg 2 8 4), ReadCfg, LoadViaPtr] = Inr s \<and>
         target (p_uwa_sys_cfg s) = Some uwa_sys_cfg_addr \<and>
         load_via_ptr s = Inr \<lparr>mailboxEventMask = 1, mailboxId = 7, timerId = 3\<rparr>)"
proof -
  let ?as = "[LoadViaPtr, DefineObject (uwa_sys_cfg (2::nat) (8::nat) (4::nat)), ReadCfg, LoadViaPtr]"
  let ?s = "define_object (uwa_sys_cfg (2::nat) (8::nat) (4::nat)) (static_init (1::nat) (7::nat) (3::nat))"
  have quiet: "list_all (\<lambda>a. \<not> is_assignment a) ?as"
    by simp
  have run: "exec (static_init 1 7 3) ?as = Inr ?s"
    by (simp add: static_init_def define_object_def load_via_ptr_def
        cast_tUWA_SYS_CFG_ptr_def address_of_uwa_sys_cfg_def)
  from p_uwa_sys_cfg_dereference [OF quiet run, of 0]
  have "target (p_uwa_sys_cfg ?s) = Some uwa_sys_cfg_addr"
    and "load_via_ptr ?s = Inr \<lparr>mailboxEventMask = 1, mailboxId = 7, timerId = 3\<rparr>"
    by (simp_all add: uwa_sys_cfg_def)
  with quiet run show ?thesis
    by blast
qed

text \<open>
  Claim C10. The initializer of \<^verbatim>\<open>p_uwa_sys_cfg\<close> casts away \<^verbatim>\<open>const\<close>: the address
  taken is typed \<^verbatim>\<open>const tUWA_SYS_CFG*\<close>, the pointer is typed \<^verbatim>\<open>tUWA_SYS_CFG*\<close>, both
  have the same target, and the object at that target is \<^verbatim>\<open>const\<close>. So in the initial state
  every store through the pointer targets \<^verbatim>\<open>const\<close> storage, which is a fault, whereas
  assigning the pointer the address of a mutable object redirects the reads through it
  and leaves \<^verbatim>\<open>uwa_sys_cfg\<close> as it was.
\<close>

theorem p_uwa_sys_cfg_casts_away_const:
  "pointee_qual address_of_uwa_sys_cfg = Const \<and>
   pointee_qual (p_uwa_sys_cfg (static_init M B T)) = NonConst \<and>
   target (p_uwa_sys_cfg (static_init M B T)) = target address_of_uwa_sys_cfg \<and>
   map_option is_const (objects (static_init M B T) uwa_sys_cfg_addr) = Some True \<and>
   step (static_init M B T) (StoreViaPtr v) = Inl WriteToConst \<and>
   exec (static_init M B T) [DefineObject v, AssignPtr (Some (other_addr 0))] =
     Inr (assign_ptr (Some (other_addr 0)) (define_object v (static_init M B T))) \<and>
   load_via_ptr (assign_ptr (Some (other_addr 0)) (define_object v (static_init M B T))) = Inr v \<and>
   read_uwa_sys_cfg (assign_ptr (Some (other_addr 0)) (define_object v (static_init M B T))) =
     Some (uwa_sys_cfg M B T)"
  by (simp add: static_init_def cast_tUWA_SYS_CFG_ptr_def address_of_uwa_sys_cfg_def
      store_via_ptr_def assign_ptr_def define_object_def load_via_ptr_def read_uwa_sys_cfg_def)

section \<open>Properties of the dispatch core\<close>

subsection \<open>What one turn of the loop preserves\<close>

lemma route_facts:
  "state (route K e l) = state l"
  "handlers (route K e l) = handlers l"
  "adapter (route K e l) = adapter l"
  "periodic (route K e l) = periodic l"
  by (simp_all add: route_def split: lookup_result.splits)

lemma rearm_facts:
  "state (rearm l) = state l"
  "handlers (rearm l) = handlers l"
  "outcomes (rearm l) = outcomes l"
  "map_option is_open (adapter (rearm l)) = map_option is_open (adapter l)"
  by (simp_all add: rearm_def armTimer_def option.map_comp comp_def split: option.splits)

lemma route_outcomes:
  "outcomes (route K e l) =
     outcomes l @ [case handlers l K of None \<Rightarrow> Dropped e | Some h \<Rightarrow> Invoked h e]"
  by (simp add: route_def lookup_def split: option.splits)

lemma dispatch_event_step:
  assumes "e \<noteq> Shutdown"
  shows "\<exists>l'. dispatch_event e k l = Inr (k, l') \<and> state l' = state l \<and>
              handlers l' = handlers l \<and>
              map_option is_open (adapter l') = map_option is_open (adapter l) \<and>
              outcomes l' = outcomes l @ [expected_outcome (handlers l) e]"
proof (cases e)
  case (Mailbox d p)
  then show ?thesis
    by (simp add: route_facts route_outcomes expected_outcome_def)
next
  case TimerExpired
  then show ?thesis
    by (simp add: route_facts rearm_facts route_outcomes expected_outcome_def)
next
  case Shutdown
  with assms show ?thesis by simp
qed

lemma run_without_shutdown:
  assumes "state l = Running" and "Shutdown \<notin> set es"
  shows "\<exists>l'. run es k l = Inr (k, l') \<and> state l' = Running \<and>
              handlers l' = handlers l \<and>
              map_option is_open (adapter l') = map_option is_open (adapter l) \<and>
              outcomes l' = outcomes l @ map (expected_outcome (handlers l)) es"
  using assms
proof (induction es arbitrary: l)
  case Nil
  then show ?case by simp
next
  case (Cons e es)
  from Cons.prems(2) have ne: "e \<noteq> Shutdown" and rest: "Shutdown \<notin> set es"
    by auto
  from dispatch_event_step [OF ne, of k l] obtain l1 where
    d: "dispatch_event e k l = Inr (k, l1)" and s1: "state l1 = state l" and
    h1: "handlers l1 = handlers l" and
    a1: "map_option is_open (adapter l1) = map_option is_open (adapter l)" and
    o1: "outcomes l1 = outcomes l @ [expected_outcome (handlers l) e]"
    by blast
  from s1 Cons.prems(1) have r1: "state l1 = Running" by simp
  from Cons.IH [OF r1 rest] obtain l' where
    "run es k l1 = Inr (k, l')" "state l' = Running" "handlers l' = handlers l1"
    "map_option is_open (adapter l') = map_option is_open (adapter l1)"
    "outcomes l' = outcomes l1 @ map (expected_outcome (handlers l1)) es"
    by blast
  with d h1 a1 o1 Cons.prems(1) show ?case
    by simp
qed

lemma run_append:
  "run es k l = Inr (k', l') \<Longrightarrow> state l' = Running \<Longrightarrow> run (es @ fs) k l = run fs k' l'"
proof (induction es arbitrary: k l)
  case Nil
  then show ?case by simp
next
  case (Cons e es)
  show ?case
  proof (cases "state l = Running")
    case True
    with Cons.prems(1) obtain k1 l1 where
      d: "dispatch_event e k l = Inr (k1, l1)" and r: "run es k1 l1 = Inr (k', l')"
      by (auto split: sum.splits)
    from Cons.IH [OF r Cons.prems(2)] d True show ?thesis by simp
  next
    case False
    with Cons.prems show ?thesis by simp
  qed
qed

lemma expected_outcome_event: "event_of (expected_outcome reg e) = e"
  by (simp add: expected_outcome_def split: option.splits)

lemma shutdown_drains:
  assumes "adapter l = Some ad" and "is_open ad"
  shows "\<exists>k' l'. dispatch_event Shutdown k l = Inr (k', l') \<and> state l' = Stopped \<and>
           adapter l' = None \<and> outcomes l' = outcomes l \<and> handlers l' = handlers l"
  using assms by (simp add: drain_def close_adapter_def)

subsection \<open>Order of dispatch\<close>

text \<open>
  Claim C4. For any sequence of events \<open>E1, \<dots>, En\<close> delivered to a \<open>Running\<close> loop
  (none of them the shutdown signal), the loop handles them in exactly that order, one
  outcome per event: the handler registered for the kind of the event is invoked on it,
  or the event is dropped when no handler is registered. Nothing is reordered or batched,
  and the loop is still \<open>Running\<close> afterwards.
\<close>

theorem dispatch_fifo:
  assumes "state l = Running" and "Shutdown \<notin> set es"
  shows "\<exists>l'. run es k l = Inr (k, l') \<and> state l' = Running \<and>
              outcomes l' = outcomes l @ map (expected_outcome (handlers l)) es \<and>
              map event_of (outcomes l') = map event_of (outcomes l) @ es"
proof -
  from run_without_shutdown [OF assms, of k] obtain l' where
    r: "run es k l = Inr (k, l')" "state l' = Running"
       "outcomes l' = outcomes l @ map (expected_outcome (handlers l)) es"
    by blast
  have "map event_of (map (expected_outcome (handlers l)) es) = es"
    by (simp add: comp_def expected_outcome_event)
  with r show ?thesis by simp
qed

theorem dispatch_fifo_witness:
  "\<exists>l'. run [Mailbox (1::nat) (10::nat), TimerExpired, Mailbox 2 20, Mailbox 1 30]
            \<lparr>mailbox_owner = [7 \<mapsto> 0], timer_owner = [3 \<mapsto> 0]\<rparr>
            \<lparr>state = Running, task_id = 0, config = uwa_sys_cfg (1::nat) (7::nat) (3::nat),
             handlers = [MailboxMessage 1 \<mapsto> ''on_ping'', TimerExpiry \<mapsto> ''on_timer''],
             adapter = Some \<lparr>owning_task = 0, polled_mailbox = 7, polled_mask = 1,
                             timer_slot = 3, expiry = None, is_open = True\<rparr>,
             periodic = None, outcomes = []\<rparr>
          = Inr (\<lparr>mailbox_owner = [7 \<mapsto> 0], timer_owner = [3 \<mapsto> 0]\<rparr>, l') \<and>
        state l' = Running \<and>
        outcomes l' = [Invoked ''on_ping'' (Mailbox 1 10), Invoked ''on_timer'' TimerExpired,
                       Dropped (Mailbox 2 20), Invoked ''on_ping'' (Mailbox 1 30)]"
proof -
  let ?es = "[Mailbox (1::nat) (10::nat), TimerExpired, Mailbox 2 20, Mailbox 1 30]"
  let ?k = "\<lparr>mailbox_owner = [(7::nat) \<mapsto> (0::nat)], timer_owner = [(3::nat) \<mapsto> (0::nat)]\<rparr>"
  let ?l = "\<lparr>state = Running, task_id = 0, config = uwa_sys_cfg (1::nat) (7::nat) (3::nat),
             handlers = [MailboxMessage (1::nat) \<mapsto> ''on_ping'', TimerExpiry \<mapsto> ''on_timer''],
             adapter = Some \<lparr>owning_task = 0, polled_mailbox = 7, polled_mask = 1,
                             timer_slot = 3, expiry = None, is_open = True\<rparr>,
             periodic = None, outcomes = ([] :: (nat, nat, string) outcome list)\<rparr>"
  have running: "state ?l = Running" by simp
  have quiet: "Shutdown \<notin> set ?es" by simp
  from dispatch_fifo [OF running quiet, of ?k] obtain l' where
    r: "run ?es ?k ?l = Inr (?k, l')" and s: "state l' = Running" and
    o: "outcomes l' = outcomes ?l @ map (expected_outcome (handlers ?l)) ?es"
    by blast
  from o have "outcomes l' = [Invoked ''on_ping'' (Mailbox 1 10), Invoked ''on_timer'' TimerExpired,
                       Dropped (Mailbox 2 20), Invoked ''on_ping'' (Mailbox 1 30)]"
    by (simp add: expected_outcome_def)
  with r s show ?thesis
    by blast
qed

subsection \<open>The registry\<close>

text \<open>
  Claim C5. Registering \<open>h\<close> for \<open>K\<close> and then looking \<open>K\<close> up returns \<open>h\<close>: under the
  policy \<open>Replace\<close> the registration always goes through, and under either policy a
  registration that goes through makes the lookup return \<open>h\<close>; the only registration that
  does not go through is the one the policy \<open>Reject\<close> refuses with
  \<open>DuplicateHandlerError\<close> because \<open>K\<close> has a handler already. Unregistering \<open>K\<close> and
  then looking \<open>K\<close> up returns \<open>NoHandler\<close>.
\<close>

theorem register_then_lookup:
  "register Replace K h reg = Inr (reg(K \<mapsto> h)) \<and>
   lookup K (reg(K \<mapsto> h)) = Handler h \<and>
   (case register policy K h reg of
      Inr reg' \<Rightarrow> lookup K reg' = Handler h
    | Inl e \<Rightarrow> e = DuplicateHandlerError \<and> policy = Reject \<and> lookup K reg \<noteq> NoHandler) \<and>
   lookup K (unregister K reg) = NoHandler"
  by (cases policy) (simp_all add: register_def lookup_def unregister_def split: option.splits)

subsection \<open>Events without a handler\<close>

text \<open>
  Claim C6. An event of a kind with no registered handler, delivered to a \<open>Running\<close>
  loop, raises no error and does not halt the loop: the turn succeeds, the event is
  recorded as dropped, the loop is still \<open>Running\<close> with the same registry, and it goes on
  with the events that follow.
\<close>

theorem no_handler_is_dropped:
  assumes "state l = Running" and "kind_of e = Some K" and "lookup K (handlers l) = NoHandler"
  shows "\<exists>l'. dispatch_event e k l = Inr (k, l') \<and> state l' = Running \<and>
              handlers l' = handlers l \<and> outcomes l' = outcomes l @ [Dropped e] \<and>
              run (e # es) k l = run es k l'"
proof -
  from assms(2) have ne: "e \<noteq> Shutdown" by auto
  from assms(2,3) have "expected_outcome (handlers l) e = Dropped e"
    by (simp add: expected_outcome_def lookup_def split: option.splits)
  with dispatch_event_step [OF ne, of k l] assms(1) show ?thesis
    by auto
qed

theorem no_handler_is_dropped_witness:
  "\<exists>l'. dispatch_event (Mailbox (2::nat) (20::nat))
            \<lparr>mailbox_owner = [7 \<mapsto> 0], timer_owner = [3 \<mapsto> 0]\<rparr>
            \<lparr>state = Running, task_id = 0, config = uwa_sys_cfg (1::nat) (7::nat) (3::nat),
             handlers = [MailboxMessage 1 \<mapsto> ''on_ping''],
             adapter = Some \<lparr>owning_task = 0, polled_mailbox = 7, polled_mask = 1,
                             timer_slot = 3, expiry = None, is_open = True\<rparr>,
             periodic = None, outcomes = []\<rparr>
          = Inr (\<lparr>mailbox_owner = [7 \<mapsto> 0], timer_owner = [3 \<mapsto> 0]\<rparr>, l') \<and>
        state l' = Running \<and> outcomes l' = [Dropped (Mailbox 2 20)]"
proof -
  let ?k = "\<lparr>mailbox_owner = [(7::nat) \<mapsto> (0::nat)], timer_owner = [(3::nat) \<mapsto> (0::nat)]\<rparr>"
  let ?l = "\<lparr>state = Running, task_id = 0, config = uwa_sys_cfg (1::nat) (7::nat) (3::nat),
             handlers = [MailboxMessage (1::nat) \<mapsto> ''on_ping''],
             adapter = Some \<lparr>owning_task = 0, polled_mailbox = 7, polled_mask = 1,
                             timer_slot = 3, expiry = None, is_open = True\<rparr>,
             periodic = None, outcomes = ([] :: (nat, nat, string) outcome list)\<rparr>"
  have running: "state ?l = Running" by simp
  have kind: "kind_of (Mailbox (2::nat) (20::nat)) = Some (MailboxMessage 2)" by simp
  have none: "lookup (MailboxMessage 2) (handlers ?l) = NoHandler"
    by (simp add: lookup_def)
  from no_handler_is_dropped [OF running kind none, of ?k "[]"] obtain l' where
    d: "dispatch_event (Mailbox 2 20) ?k ?l = Inr (?k, l')" and s: "state l' = Running" and
    o: "outcomes l' = outcomes ?l @ [Dropped (Mailbox 2 20)]"
    by blast
  from o have "outcomes l' = [Dropped (Mailbox 2 20)]"
    by simp
  with d s show ?thesis
    by blast
qed

subsection \<open>Starting and stopping\<close>

text \<open>
  Claim C7. \<open>start()\<close> in state \<open>Stopped\<close>: when the adapter opens, the loop is
  \<open>Running\<close> and owns the adapter, and no error is reported; when opening fails, the
  error is \<open>BindingError\<close>, it is reported to the caller, and the loop is returned
  unchanged, in state \<open>Stopped\<close>.
\<close>

theorem start_from_stopped:
  assumes "state l = Stopped"
  shows "(\<forall>k' ad. open_adapter (task_id l) (config l) k = Inr (k', ad) \<longrightarrow>
            start k l = Some (None, k', l\<lparr>state := Running, adapter := Some ad\<rparr>)) \<and>
         (\<forall>e. open_adapter (task_id l) (config l) k = Inl e \<longrightarrow>
            e = BindingError \<and> start k l = Some (Some BindingError, k, l) \<and>
            state l = Stopped)"
proof -
  have same: "l\<lparr>state := Stopped\<rparr> = l"
    using assms by simp
  have only: "open_adapter (task_id l) (config l) k = Inl e \<Longrightarrow> e = BindingError" for e
    by (simp add: open_adapter_def split: if_splits)
  show ?thesis
    using assms same only by (auto simp: start_def)
qed

theorem start_from_stopped_witness:
  "start \<lparr>mailbox_owner = Map.empty, timer_owner = Map.empty\<rparr>
     \<lparr>state = Stopped, task_id = 0, config = uwa_sys_cfg (1::nat) (7::nat) (3::nat),
      handlers = [MailboxMessage (1::nat) \<mapsto> ''on_ping''], adapter = None,
      periodic = None, outcomes = ([] :: (nat, nat, string) outcome list)\<rparr>
   = Some (None,
       \<lparr>mailbox_owner = [7 \<mapsto> 0], timer_owner = [3 \<mapsto> 0]\<rparr>,
       \<lparr>state = Running, task_id = 0, config = uwa_sys_cfg 1 7 3,
        handlers = [MailboxMessage 1 \<mapsto> ''on_ping''],
        adapter = Some \<lparr>owning_task = 0, polled_mailbox = 7, polled_mask = 1,
                        timer_slot = 3, expiry = None, is_open = True\<rparr>,
        periodic = None, outcomes = []\<rparr>) \<and>
   start \<lparr>mailbox_owner = [7 \<mapsto> 5], timer_owner = Map.empty\<rparr>
     \<lparr>state = Stopped, task_id = 0, config = uwa_sys_cfg (1::nat) (7::nat) (3::nat),
      handlers = [MailboxMessage (1::nat) \<mapsto> ''on_ping''], adapter = None,
      periodic = None, outcomes = ([] :: (nat, nat, string) outcome list)\<rparr>
   = Some (Some BindingError,
       \<lparr>mailbox_owner = [7 \<mapsto> 5], timer_owner = Map.empty\<rparr>,
       \<lparr>state = Stopped, task_id = 0, config = uwa_sys_cfg 1 7 3,
        handlers = [MailboxMessage 1 \<mapsto> ''on_ping''], adapter = None,
        periodic = None, outcomes = []\<rparr>)"
proof -
  let ?l = "\<lparr>state = Stopped, task_id = 0, config = uwa_sys_cfg (1::nat) (7::nat) (3::nat),
      handlers = [MailboxMessage (1::nat) \<mapsto> ''on_ping''], adapter = None,
      periodic = None, outcomes = ([] :: (nat, nat, string) outcome list)\<rparr>"
  let ?free = "\<lparr>mailbox_owner = (Map.empty :: nat \<rightharpoonup> task), timer_owner = (Map.empty :: nat \<rightharpoonup> task)\<rparr>"
  let ?taken = "\<lparr>mailbox_owner = [(7::nat) \<mapsto> (5::nat)], timer_owner = (Map.empty :: nat \<rightharpoonup> task)\<rparr>"
  have stopped: "state ?l = Stopped" by simp
  have ok: "open_adapter (task_id ?l) (config ?l) ?free =
              Inr (\<lparr>mailbox_owner = [7 \<mapsto> 0], timer_owner = [3 \<mapsto> 0]\<rparr>,
                   \<lparr>owning_task = 0, polled_mailbox = 7, polled_mask = 1,
                    timer_slot = 3, expiry = None, is_open = True\<rparr>)"
    by (simp add: open_adapter_def owned_by_other_def uwa_sys_cfg_def)
  have bad: "open_adapter (task_id ?l) (config ?l) ?taken = Inl BindingError"
    by (simp add: open_adapter_def owned_by_other_def uwa_sys_cfg_def)
  from start_from_stopped [OF stopped, of ?free] ok
  have one: "start ?free ?l = Some (None, \<lparr>mailbox_owner = [7 \<mapsto> 0], timer_owner = [3 \<mapsto> 0]\<rparr>,
       ?l\<lparr>state := Running, adapter := Some \<lparr>owning_task = 0, polled_mailbox = 7, polled_mask = 1,
                    timer_slot = 3, expiry = None, is_open = True\<rparr>\<rparr>)"
    by blast
  from start_from_stopped [OF stopped, of ?taken] bad
  have two: "start ?taken ?l = Some (Some BindingError, ?taken, ?l)"
    by blast
  from one two show ?thesis by simp
qed

text \<open>
  Claim C8. When \<open>requestShutdown()\<close> is issued while events are queued, a \<open>Running\<close>
  loop with an open adapter handles every queued event, in order, before it reaches
  \<open>Stopped\<close>: no queued event is lost.
\<close>

theorem shutdown_drains_queue:
  assumes "state l = Running" and "adapter l = Some ad" and "is_open ad"
    and "Shutdown \<notin> set queue"
  shows "\<exists>k' l'. run (requestShutdown queue) k l = Inr (k', l') \<and> state l' = Stopped \<and>
           outcomes l' = outcomes l @ map (expected_outcome (handlers l)) queue \<and>
           map event_of (outcomes l') = map event_of (outcomes l) @ queue"
proof -
  from run_without_shutdown [OF assms(1,4), of k] obtain l1 where
    r: "run queue k l = Inr (k, l1)" and s1: "state l1 = Running" and
    a1: "map_option is_open (adapter l1) = map_option is_open (adapter l)" and
    o1: "outcomes l1 = outcomes l @ map (expected_outcome (handlers l)) queue"
    by blast
  from a1 assms(2,3) obtain ad1 where ad1: "adapter l1 = Some ad1" "is_open ad1"
    by auto
  from shutdown_drains [OF ad1, of k] obtain k' l' where
    d: "dispatch_event Shutdown k l1 = Inr (k', l')" "state l' = Stopped"
       "outcomes l' = outcomes l1"
    by blast
  have "run (requestShutdown queue) k l = run [Shutdown] k l1"
    unfolding requestShutdown_def by (rule run_append [OF r s1])
  also have "\<dots> = Inr (k', l')"
    using s1 d by simp
  finally have "run (requestShutdown queue) k l = Inr (k', l')" .
  moreover have "map event_of (map (expected_outcome (handlers l)) queue) = queue"
    by (simp add: comp_def expected_outcome_event)
  ultimately show ?thesis
    using d o1 by simp
qed

theorem shutdown_drains_queue_witness:
  "\<exists>k' l'. run (requestShutdown [Mailbox (1::nat) (10::nat), Mailbox 2 20, TimerExpired])
            \<lparr>mailbox_owner = [7 \<mapsto> 0], timer_owner = [3 \<mapsto> 0]\<rparr>
            \<lparr>state = Running, task_id = 0, config = uwa_sys_cfg (1::nat) (7::nat) (3::nat),
             handlers = [MailboxMessage 1 \<mapsto> ''on_ping''],
             adapter = Some \<lparr>owning_task = 0, polled_mailbox = 7, polled_mask = 1,
                             timer_slot = 3, expiry = None, is_open = True\<rparr>,
             periodic = Some 50, outcomes = []\<rparr>
          = Inr (k', l') \<and>
        state l' = Stopped \<and>
        outcomes l' = [Invoked ''on_ping'' (Mailbox 1 10), Dropped (Mailbox 2 20),
                       Dropped TimerExpired]"
proof -
  let ?q = "[Mailbox (1::nat) (10::nat), Mailbox 2 20, TimerExpired]"
  let ?k = "\<lparr>mailbox_owner = [(7::nat) \<mapsto> (0::nat)], timer_owner = [(3::nat) \<mapsto> (0::nat)]\<rparr>"
  let ?ad = "\<lparr>owning_task = 0, polled_mailbox = (7::nat), polled_mask = (1::nat),
                             timer_slot = (3::nat), expiry = None, is_open = True\<rparr>"
  let ?l = "\<lparr>state = Running, task_id = 0, config = uwa_sys_cfg (1::nat) (7::nat) (3::nat),
             handlers = [MailboxMessage (1::nat) \<mapsto> ''on_ping''],
             adapter = Some ?ad,
             periodic = Some 50, outcomes = ([] :: (nat, nat, string) outcome list)\<rparr>"
  have running: "state ?l = Running" by simp
  have bound: "adapter ?l = Some ?ad" by simp
  have opened: "is_open ?ad" by simp
  have queued: "Shutdown \<notin> set ?q" by simp
  from shutdown_drains_queue [OF running bound opened queued, of ?k] obtain k' l' where
    r: "run (requestShutdown ?q) ?k ?l = Inr (k', l')" and s: "state l' = Stopped" and
    o: "outcomes l' = outcomes ?l @ map (expected_outcome (handlers ?l)) ?q"
    by blast
  from o have "outcomes l' = [Invoked ''on_ping'' (Mailbox 1 10), Dropped (Mailbox 2 20),
                       Dropped TimerExpired]"
    by (simp add: expected_outcome_def)
  with r s show ?thesis
    by blast
qed

end
